theory Spec2Isabelle
  imports Main "HOL-Library.Sublist"
begin

section \<open>Python values\<close>

text \<open>
  Records hold parsed JSON: \<open>None\<close>, booleans, integers, strings, lists and nested
  dictionaries with string keys.  A dictionary is an association list in insertion
  order, the order \<open>dict.items()\<close> iterates in; its keys are distinct.  Floats are
  left out.
\<close>

datatype pyval =
    VNone
  | VBool bool
  | VInt int
  | VStr string
  | VList "pyval list"
  | VDict "(string \<times> pyval) list"

type_synonym pydict = "(string \<times> pyval) list"

text \<open>
  The exceptions the module can raise: the \<open>ValueError\<close> of \<open>_check_record\<close> with its
  message, the \<open>KeyError\<close> of a failed lookup with the missing key, and the \<open>TypeError\<close>,
  \<open>IndexError\<close> and \<open>AttributeError\<close> of the interpreter.  \<open>OtherError\<close> is whatever
  else a caller's test function raises.
\<close>

datatype error =
    ValueError string
  | KeyError pyval
  | TypeError
  | IndexError
  | AttributeError
  | OtherError string

text \<open>\<open>bool\<close> is a subclass of \<open>int\<close>: \<open>True\<close> is \<open>1\<close> and \<open>False\<close> is \<open>0\<close>.\<close>

fun num_of :: "pyval \<Rightarrow> int option" where
  "num_of (VBool b) = Some (if b then 1 else 0)"
| "num_of (VInt n) = Some n"
| "num_of _ = None"

text \<open>
  \<open>x == y\<close>.  Numbers compare by value, strings and \<open>None\<close> with their own kind, lists
  element by element after their lengths, dictionaries by their lengths and then key by
  key; values of different kinds are unequal.  It never raises on these values.
\<close>

fun py_eq :: "pyval \<Rightarrow> pyval \<Rightarrow> bool"
  and py_eq_list :: "pyval list \<Rightarrow> pyval list \<Rightarrow> bool"
  and py_eq_items :: "(string \<times> pyval) list \<Rightarrow> (string \<times> pyval) list \<Rightarrow> bool" where
  "py_eq VNone VNone = True"
| "py_eq (VStr s) (VStr t) = (s = t)"
| "py_eq (VList xs) (VList ys) = py_eq_list xs ys"
| "py_eq (VDict a) (VDict b) = (length a = length b \<and> py_eq_items a b)"
| "py_eq x y = (case num_of x of None \<Rightarrow> False
                | Some m \<Rightarrow> (case num_of y of None \<Rightarrow> False | Some n \<Rightarrow> m = n))"
| "py_eq_list [] [] = True"
| "py_eq_list (x # xs) (y # ys) = (py_eq x y \<and> py_eq_list xs ys)"
| "py_eq_list _ _ = False"
| "py_eq_items [] b = True"
| "py_eq_items ((k, v) # a) b =
     ((case map_of b k of None \<Rightarrow> False | Some w \<Rightarrow> py_eq v w) \<and> py_eq_items a b)"


text \<open>
  The ordering comparisons \<open><\<close>, \<open><=\<close>, \<open>>\<close>, \<open>>=\<close>.  Numbers are ordered by value,
  strings character by character, lists by their first pair of unequal elements, and a
  list or string that is a proper prefix of another is the smaller one.  Every other
  pair of values raises \<open>TypeError\<close>.
\<close>

datatype cmpop = LT | LE | GT | GE

fun cmp_int :: "cmpop \<Rightarrow> int \<Rightarrow> int \<Rightarrow> bool" where
  "cmp_int LT m n = (m < n)"
| "cmp_int LE m n = (m \<le> n)"
| "cmp_int GT m n = (m > n)"
| "cmp_int GE m n = (m \<ge> n)"

fun cmp_str :: "cmpop \<Rightarrow> string \<Rightarrow> string \<Rightarrow> bool" where
  "cmp_str c [] [] = cmp_int c 0 0"
| "cmp_str c [] (y # ys) = cmp_int c 0 1"
| "cmp_str c (x # xs) [] = cmp_int c 1 0"
| "cmp_str c (x # xs) (y # ys) =
     (if x = y then cmp_str c xs ys else cmp_int c (of_char x) (of_char y))"

fun py_compare :: "cmpop \<Rightarrow> pyval \<Rightarrow> pyval \<Rightarrow> error + bool"
  and py_compare_list :: "cmpop \<Rightarrow> pyval list \<Rightarrow> pyval list \<Rightarrow> error + bool" where
  "py_compare c (VStr s) (VStr t) = Inr (cmp_str c s t)"
| "py_compare c (VList xs) (VList ys) = py_compare_list c xs ys"
| "py_compare c x y =
     (case num_of x of None \<Rightarrow> Inl TypeError
      | Some m \<Rightarrow> (case num_of y of None \<Rightarrow> Inl TypeError | Some n \<Rightarrow> Inr (cmp_int c m n)))"
| "py_compare_list c [] [] = Inr (cmp_int c 0 0)"
| "py_compare_list c [] (y # ys) = Inr (cmp_int c 0 1)"
| "py_compare_list c (x # xs) [] = Inr (cmp_int c 1 0)"
| "py_compare_list c (x # xs) (y # ys) =
     (if py_eq x y then py_compare_list c xs ys else py_compare c x y)"

text \<open>
  \<open>x in y\<close>.  In a list it is equality with some element.  In a string \<open>x\<close> has to be a
  string and the test is for a substring.  In a dictionary it is a key lookup, which
  hashes \<open>x\<close>: a list or a dictionary is unhashable.  \<open>None\<close> and numbers are not
  containers.
\<close>

fun is_prefix :: "string \<Rightarrow> string \<Rightarrow> bool" where
  "is_prefix [] t = True"
| "is_prefix (x # xs) [] = False"
| "is_prefix (x # xs) (y # ys) = (x = y \<and> is_prefix xs ys)"

fun is_substr :: "string \<Rightarrow> string \<Rightarrow> bool" where
  "is_substr s [] = (s = [])"
| "is_substr s (y # ys) = (is_prefix s (y # ys) \<or> is_substr s ys)"

fun py_in :: "pyval \<Rightarrow> pyval \<Rightarrow> error + bool" where
  "py_in x (VList ys) = Inr (list_ex (py_eq x) ys)"
| "py_in x (VStr t) = (case x of VStr s \<Rightarrow> Inr (is_substr s t) | _ \<Rightarrow> Inl TypeError)"
| "py_in x (VDict d) =
     (case x of
        VList _ \<Rightarrow> Inl TypeError
      | VDict _ \<Rightarrow> Inl TypeError
      | VStr s \<Rightarrow> Inr (s \<in> set (map fst d))
      | _ \<Rightarrow> Inr False)"
| "py_in x _ = Inl TypeError"

text \<open>The truth value that \<open>not\<close> and \<open>if\<close> take of a value.\<close>

fun truthy :: "pyval \<Rightarrow> bool" where
  "truthy VNone = False"
| "truthy (VBool b) = b"
| "truthy (VInt n) = (n \<noteq> 0)"
| "truthy (VStr s) = (s \<noteq> [])"
| "truthy (VList xs) = (xs \<noteq> [])"
| "truthy (VDict d) = (d \<noteq> [])"

section \<open>The operator table\<close>

text \<open>
  \<open>_OPERATORS\<close>: eight symbols, each a function of the record's value and the
  comparand.  \<open>op not in _OPERATORS\<close> is \<open>OPERATORS op = None\<close>.
\<close>

definition OPERATORS_items :: "(string \<times> (pyval \<Rightarrow> pyval \<Rightarrow> error + bool)) list" where
  "OPERATORS_items =
     [(''$eq'', \<lambda>x y. Inr (py_eq x y)),
      (''$neq'', \<lambda>x y. Inr (\<not> py_eq x y)),
      (''$lt'', \<lambda>x y. py_compare LT x y),
      (''$lte'', \<lambda>x y. py_compare LE x y),
      (''$gt'', \<lambda>x y. py_compare GT x y),
      (''$gte'', \<lambda>x y. py_compare GE x y),
      (''$in'', \<lambda>x y. py_in x y),
      (''$nin'', \<lambda>x y. map_sum id Not (py_in x y))]"

definition OPERATORS :: "string \<Rightarrow> (pyval \<Rightarrow> pyval \<Rightarrow> error + bool) option" where
  "OPERATORS = map_of OPERATORS_items"

section \<open>The record matcher\<close>

text \<open>
  A predicate maps field names to qualifiers, in insertion order.  A qualifier is any
  Python object, and \<open>_check_record\<close> tells three kinds apart by \<open>isinstance\<close>: a
  \<open>dict\<close>, an instance of \<open>types.FunctionType\<close> (a \<open>def\<close> or a \<open>lambda\<close>), and the rest.
  \<open>QVal\<close> is a data value, \<open>QFunction\<close> a \<open>FunctionType\<close> instance, given by what a call
  of it returns or raises, and \<open>QCallable\<close> a callable object of another type (a
  built-in function such as \<open>str.isalpha\<close>, a bound method, a \<open>functools.partial\<close>),
  which compares by identity and so is unequal to every data value.
\<close>

datatype qual =
    QVal pyval
  | QFunction "pyval \<Rightarrow> error + pyval"
  | QCallable "pyval \<Rightarrow> error + pyval"

type_synonym predicate = "(string \<times> qual) list"

text \<open>\<open>record[key]\<close> raises \<open>KeyError(key)\<close> when the key is absent.\<close>

definition getitem :: "pydict \<Rightarrow> string \<Rightarrow> error + pyval" where
  "getitem rcd key = (case map_of rcd key of None \<Rightarrow> Inl (KeyError (VStr key)) | Some v \<Rightarrow> Inr v)"

definition not_valid_operator :: "string \<Rightarrow> error" where
  "not_valid_operator opr = ValueError ([CHR 0x27] @ opr @ [CHR 0x27] @ '' is not a valid operator.'')"

text \<open>
  The inner loop of \<open>_check_record\<close> over the entries of an operator clause.  The
  membership test comes before \<open>record[key]\<close> is read.  \<open>Inr True\<close> is the loop running
  to its end, \<open>Inr False\<close> the \<open>return False\<close>.
\<close>

fun check_ops :: "pydict \<Rightarrow> string \<Rightarrow> (string \<times> pyval) list \<Rightarrow> error + bool" where
  "check_ops rcd key [] = Inr True"
| "check_ops rcd key ((opr, val) # rest) =
     (case OPERATORS opr of
        None \<Rightarrow> Inl (not_valid_operator opr)
      | Some f \<Rightarrow>
          (case getitem rcd key of
             Inl e \<Rightarrow> Inl e
           | Inr x \<Rightarrow>
               (case f x val of
                  Inl e \<Rightarrow> Inl e
                | Inr b \<Rightarrow> if \<not> b then Inr False else check_ops rcd key rest)))"

text \<open>One field of the predicate: the body of the outer loop.\<close>

fun check_field :: "string \<Rightarrow> qual \<Rightarrow> pydict \<Rightarrow> error + bool" where
  "check_field key (QVal (VDict ops)) rcd = check_ops rcd key ops"
| "check_field key (QFunction f) rcd =
     (case getitem rcd key of
        Inl e \<Rightarrow> Inl e
      | Inr x \<Rightarrow> (case f x of Inl e \<Rightarrow> Inl e | Inr r \<Rightarrow> Inr (truthy r)))"
| "check_field key (QVal v) rcd =
     (case getitem rcd key of Inl e \<Rightarrow> Inl e | Inr x \<Rightarrow> Inr (py_eq x v))"
| "check_field key (QCallable f) rcd =
     (case getitem rcd key of Inl e \<Rightarrow> Inl e | Inr x \<Rightarrow> Inr False)"

fun check_record :: "predicate \<Rightarrow> pydict \<Rightarrow> error + bool" where
  "check_record [] rcd = Inr True"
| "check_record ((key, q) # rest) rcd =
     (case check_field key q rcd of
        Inl e \<Rightarrow> Inl e
      | Inr b \<Rightarrow> if \<not> b then Inr False else check_record rest rcd)"


section \<open>The class \<open>jque\<close>\<close>

text \<open>
  \<open>data\<close> is a list of records or a \<open>pandas.DataFrame\<close>.  A frame is taken as the list
  of its rows, each row a record whose keys are the column labels; what the module asks
  of a frame is \<open>iterrows\<close>, \<open>len\<close> (the number of rows), \<open>data[i]\<close> (a lookup among the
  column labels, which are strings, so an integer \<open>i\<close> is a \<open>KeyError\<close>) and iteration
  (over the column labels).  The string branch of \<open>__init__\<close>, which parses JSON, is not
  part of the model.
\<close>

datatype pydata = PyList "pydict list" | DataFrame "pydict list"

record jque =
  parallel :: bool
  is_pandas :: bool
  data :: pydata

definition jque_init :: "pydata \<Rightarrow> bool \<Rightarrow> jque" where
  "jque_init d p =
     \<lparr>parallel = p,
      is_pandas = (case d of DataFrame _ \<Rightarrow> True | PyList _ \<Rightarrow> False),
      data = d\<rparr>"

fun rows_of :: "pydata \<Rightarrow> pydict list" where
  "rows_of (PyList rs) = rs"
| "rows_of (DataFrame rs) = rs"

text \<open>
  \<open>self._iter_items\<close> is
  \<^verbatim>\<open>lambda x: [v for _, v in x.iterrows()] if self._is_pandas else list\<close>:
  the conditional expression is the whole body of the lambda, so for data that is not a
  frame the call returns the built-in class \<open>list\<close> itself and not a list of the
  records.  \<open>ListClass\<close> is that class; a \<open>for\<close> loop over it raises \<open>TypeError\<close>, a
  class not being iterable.
\<close>

datatype iter_target = Rows "pydict list" | ListClass

definition iter_items :: "jque \<Rightarrow> pydata \<Rightarrow> error + iter_target" where
  "iter_items self x =
     (if is_pandas self
      then (case x of DataFrame rs \<Rightarrow> Inr (Rows rs) | PyList _ \<Rightarrow> Inl AttributeError)
      else Inr ListClass)"

fun iterate :: "iter_target \<Rightarrow> error + pydict list" where
  "iterate (Rows rs) = Inr rs"
| "iterate ListClass = Inl TypeError"

text \<open>\<open>limit and len(filtered_data) >= limit\<close>: \<open>None\<close> and \<open>0\<close> are both false.\<close>

definition limit_reached :: "int option \<Rightarrow> nat \<Rightarrow> bool" where
  "limit_reached limit n = (case limit of None \<Rightarrow> False | Some k \<Rightarrow> k \<noteq> 0 \<and> int n \<ge> k)"

text \<open>
  The \<open>for\<close> loop of the sequential branch of \<open>query\<close>, over the records still to come,
  with \<open>filtered_data\<close> as built so far.
\<close>

fun scan :: "predicate \<Rightarrow> int option \<Rightarrow> pydict list \<Rightarrow> pydict list \<Rightarrow> error + pydict list" where
  "scan qr limit [] filtered_data = Inr filtered_data"
| "scan qr limit (rcd # rest) filtered_data =
     (case check_record qr rcd of
        Inl e \<Rightarrow> Inl e
      | Inr include \<Rightarrow>
          if include
          then (if limit_reached limit (length (filtered_data @ [rcd]))
                then Inr (filtered_data @ [rcd])
                else scan qr limit rest (filtered_data @ [rcd]))
          else scan qr limit rest filtered_data)"

text \<open>\<open>_parallel_query\<close>: a vector of \<open>False\<close>, overwritten index by index.\<close>

fun len_data :: "pydata \<Rightarrow> nat" where
  "len_data (PyList rs) = length rs"
| "len_data (DataFrame rs) = length rs"

fun getitem_data :: "pydata \<Rightarrow> nat \<Rightarrow> error + pydict" where
  "getitem_data (PyList rs) i = (if i < length rs then Inr (rs ! i) else Inl IndexError)"
| "getitem_data (DataFrame rs) i = Inl (KeyError (VInt (int i)))"

fun parallel_loop :: "predicate \<Rightarrow> pydata \<Rightarrow> nat list \<Rightarrow> bool list \<Rightarrow> error + bool list" where
  "parallel_loop qr d [] results = Inr results"
| "parallel_loop qr d (i # is) results =
     (case getitem_data d i of
        Inl e \<Rightarrow> Inl e
      | Inr rcd \<Rightarrow>
          (case check_record qr rcd of
             Inl e \<Rightarrow> Inl e
           | Inr b \<Rightarrow> parallel_loop qr d is (results[i := b])))"

definition parallel_query :: "predicate \<Rightarrow> pydata \<Rightarrow> error + bool list" where
  "parallel_query qr d = parallel_loop qr d [0..<len_data d] (replicate (len_data d) False)"

text \<open>
  \<open>zip(self.data, results)\<close>.  Iterating a frame gives its column labels; the vector is
  empty whenever this is reached with a frame, and so is the zip.
\<close>

fun zip_data :: "pydata \<Rightarrow> bool list \<Rightarrow> (pydict \<times> bool) list" where
  "zip_data (PyList rs) results = zip rs results"
| "zip_data (DataFrame rs) results = []"

text \<open>\<open>xs[:limit]\<close>: a negative bound counts from the end.\<close>

definition slice_to :: "int option \<Rightarrow> 'a list \<Rightarrow> 'a list" where
  "slice_to limit xs =
     (case limit of
        None \<Rightarrow> xs
      | Some k \<Rightarrow> if 0 \<le> k then take (nat k) xs else take (nat (int (length xs) + k)) xs)"

datatype query_result = Wrapped jque | Bare "pydict list"

definition rewrap :: "bool \<Rightarrow> pydict list \<Rightarrow> query_result" where
  "rewrap wrap rs = (if wrap then Wrapped (jque_init (PyList rs) False) else Bare rs)"

definition query :: "jque \<Rightarrow> predicate \<Rightarrow> bool \<Rightarrow> int option \<Rightarrow> error + query_result" where
  "query self qr wrap limit =
     (if parallel self
      then (case parallel_query qr (data self) of
              Inl e \<Rightarrow> Inl e
            | Inr results \<Rightarrow>
                Inr (rewrap wrap
                  (slice_to limit (map fst (filter snd (zip_data (data self) results))))))
      else (case iter_items self (data self) of
              Inl e \<Rightarrow> Inl e
            | Inr target \<Rightarrow>
                (case iterate target of
                   Inl e \<Rightarrow> Inl e
                 | Inr rs \<Rightarrow>
                     (case scan qr limit rs [] of
                        Inl e \<Rightarrow> Inl e
                      | Inr filtered_data \<Rightarrow> Inr (rewrap wrap filtered_data)))))"

text \<open>The records of a result, wrapped or bare.\<close>

fun records_of :: "query_result \<Rightarrow> pydict list" where
  "records_of (Wrapped j) = rows_of (data j)"
| "records_of (Bare rs) = rs"

section \<open>Auxiliary notions\<close>

text \<open>
  The matcher applied to each record of a list in turn, stopping at the first record
  that raises: the vector \<open>_parallel_query\<close> is meant to fill.
\<close>

fun match_vector :: "predicate \<Rightarrow> pydict list \<Rightarrow> error + bool list" where
  "match_vector qr [] = Inr []"
| "match_vector qr (rcd # rest) =
     (case check_record qr rcd of
        Inl e \<Rightarrow> Inl e
      | Inr b \<Rightarrow> (case match_vector qr rest of Inl e \<Rightarrow> Inl e | Inr bs \<Rightarrow> Inr (b # bs)))"

text \<open>The records of a list on which the matcher returns \<open>True\<close>.\<close>

definition matching :: "predicate \<Rightarrow> pydict list \<Rightarrow> pydict list" where
  "matching qr rs = filter (\<lambda>r. check_record qr r = Inr True) rs"

text \<open>
  Whether the first thing \<open>_check_record\<close> does for a field with this qualifier is to
  read \<open>record[key]\<close>: not for the empty clause, whose loop body never runs, and not for
  a clause whose first symbol is unknown, where the \<open>ValueError\<close> comes first.
\<close>

fun reads_field :: "qual \<Rightarrow> bool" where
  "reads_field (QVal (VDict [])) = False"
| "reads_field (QVal (VDict ((opr, val) # ops))) = (OPERATORS opr \<noteq> None)"
| "reads_field _ = True"

section \<open>Facts about the matcher\<close>

lemma OPERATORS_known:
  "OPERATORS ''$eq'' = Some (\<lambda>x y. Inr (py_eq x y))"
  "OPERATORS ''$neq'' = Some (\<lambda>x y. Inr (\<not> py_eq x y))"
  "OPERATORS ''$lt'' = Some (\<lambda>x y. py_compare LT x y)"
  "OPERATORS ''$lte'' = Some (\<lambda>x y. py_compare LE x y)"
  "OPERATORS ''$gt'' = Some (\<lambda>x y. py_compare GT x y)"
  "OPERATORS ''$gte'' = Some (\<lambda>x y. py_compare GE x y)"
  "OPERATORS ''$in'' = Some (\<lambda>x y. py_in x y)"
  "OPERATORS ''$nin'' = Some (\<lambda>x y. map_sum id Not (py_in x y))"
  by (simp_all add: OPERATORS_def OPERATORS_items_def)

lemma OPERATORS_bogus: "OPERATORS ''$bogus'' = None"
  by (simp add: OPERATORS_def OPERATORS_items_def)

lemma check_ops_append:
  "check_ops rcd key (ops1 @ ops2) =
     (case check_ops rcd key ops1 of
        Inl e \<Rightarrow> Inl e
      | Inr b \<Rightarrow> if \<not> b then Inr False else check_ops rcd key ops2)"
proof (induction ops1)
  case Nil
  show ?case by simp
next
  case (Cons a ops1)
  obtain opr val where a: "a = (opr, val)" by (cases a)
  show ?case using Cons.IH
    by (simp add: a split: option.splits sum.splits)
qed

lemma check_record_append:
  "check_record (p1 @ p2) rcd =
     (case check_record p1 rcd of
        Inl e \<Rightarrow> Inl e
      | Inr b \<Rightarrow> if \<not> b then Inr False else check_record p2 rcd)"
proof (induction p1)
  case Nil
  show ?case by simp
next
  case (Cons a p1)
  obtain key q where a: "a = (key, q)" by (cases a)
  show ?case
  proof (cases "check_field key q rcd")
    case (Inl e)
    then show ?thesis by (simp add: a)
  next
    case (Inr b)
    then show ?thesis using Cons.IH by (simp add: a)
  qed
qed

lemma py_eq_VStr: "py_eq x (VStr s) = (x = VStr s)"
  by (cases x) auto

lemma bogus_raises_everywhere:
  "check_record [(''age'', QVal (VDict [(''$bogus'', VInt 1)]))] rcd = Inl (not_valid_operator ''$bogus'')"
  by (simp add: OPERATORS_bogus)

lemma reads_field_raises:
  "reads_field q \<Longrightarrow> map_of rcd f = None \<Longrightarrow> check_field f q rcd = Inl (KeyError (VStr f))"
  by (induction q rule: reads_field.induct) (auto simp: getitem_def)

lemma check_record_append_True:
  "check_record (p1 @ p2) rcd = Inr True \<longleftrightarrow>
     check_record p1 rcd = Inr True \<and> check_record p2 rcd = Inr True"
  by (auto simp: check_record_append split: sum.splits)

lemma matching_append: "matching (p1 @ p2) rs = matching p2 (matching p1 rs)"
  by (simp add: matching_def check_record_append_True)

section \<open>Facts about the parallel evaluator\<close>

lemma parallel_loop_PyList:
  "i \<le> length rs \<Longrightarrow> length results = length rs \<Longrightarrow>
   parallel_loop qr (PyList rs) [i..<length rs] results =
     (case match_vector qr (drop i rs) of
        Inl e \<Rightarrow> Inl e
      | Inr bs \<Rightarrow> Inr (take i results @ bs))"
proof (induction "length rs - i" arbitrary: i results)
  case 0
  then show ?case by simp
next
  case (Suc k)
  then have lt: "i < length rs" by arith
  have idx: "[i..<length rs] = i # [Suc i..<length rs]"
    using lt by (simp add: upt_conv_Cons)
  have dr: "drop i rs = rs ! i # drop (Suc i) rs"
    using lt by (simp add: Cons_nth_drop_Suc)
  show ?case
  proof (cases "check_record qr (rs ! i)")
    case (Inl e)
    then show ?thesis using lt by (simp add: idx dr)
  next
    case (Inr b)
    have k: "k = length rs - Suc i" using Suc.hyps(2) by arith
    have len: "length (results[i := b]) = length rs" using Suc.prems by simp
    have tk: "take (Suc i) (results[i := b]) = take i results @ [b]"
      using lt Suc.prems by (simp add: take_Suc_conv_app_nth)
    have IH: "parallel_loop qr (PyList rs) [Suc i..<length rs] (results[i := b]) =
       (case match_vector qr (drop (Suc i) rs) of
          Inl e \<Rightarrow> Inl e
        | Inr bs \<Rightarrow> Inr (take (Suc i) (results[i := b]) @ bs))"
      using Suc.hyps(1)[OF k _ len] lt by simp
    show ?thesis using lt Inr
      by (simp add: idx dr IH tk split: sum.splits)
  qed
qed

lemma parallel_query_PyList: "parallel_query qr (PyList rs) = match_vector qr rs"
  using parallel_loop_PyList[of 0 rs "replicate (length rs) False" qr]
  by (simp add: parallel_query_def split: sum.splits)

lemma match_vector_iff:
  "match_vector qr rs = Inr bs \<longleftrightarrow>
     (length bs = length rs \<and> (\<forall>i<length rs. check_record qr (rs ! i) = Inr (bs ! i)))"
proof (induction rs arbitrary: bs)
  case Nil
  show ?case by auto
next
  case (Cons r rs)
  show ?case
  proof (cases bs)
    case Nil
    then show ?thesis by (auto split: sum.splits)
  next
    case (Cons b bs')
    have "match_vector qr (r # rs) = Inr (b # bs') \<longleftrightarrow>
            check_record qr r = Inr b \<and> match_vector qr rs = Inr bs'"
      by (auto split: sum.splits)
    also have "\<dots> \<longleftrightarrow> check_record qr r = Inr b \<and> length bs' = length rs
          \<and> (\<forall>i<length rs. check_record qr (rs ! i) = Inr (bs' ! i))"
      using Cons.IH[of bs'] by simp
    also have "\<dots> \<longleftrightarrow> length (b # bs') = length (r # rs)
          \<and> (\<forall>i<length (r # rs). check_record qr ((r # rs) ! i) = Inr ((b # bs') ! i))"
      by (auto simp: nth_Cons split: nat.splits)
    finally show ?thesis using Cons by simp
  qed
qed

lemma match_vector_error:
  "\<forall>r\<in>set rs1. \<exists>b. check_record qr r = Inr b \<Longrightarrow> check_record qr rcd = Inl e \<Longrightarrow>
   match_vector qr (rs1 @ rcd # rs2) = Inl e"
  by (induction rs1) auto

section \<open>Facts about the scan and the filter\<close>

lemma records_of_rewrap: "records_of (rewrap wrap rs) = rs"
  by (simp add: rewrap_def jque_init_def)

lemma limit_reached_mono: "limit_reached limit m \<Longrightarrow> m \<le> n \<Longrightarrow> limit_reached limit n"
  by (auto simp: limit_reached_def split: option.splits)

lemma scan_no_stop:
  "\<forall>r\<in>set rs1. \<exists>b. check_record qr r = Inr b \<Longrightarrow>
   matching qr rs1 = [] \<or> \<not> limit_reached limit (length acc + length (matching qr rs1)) \<Longrightarrow>
   scan qr limit (rs1 @ rest) acc = scan qr limit rest (acc @ matching qr rs1)"
proof (induction rs1 arbitrary: acc)
  case Nil
  show ?case by (simp add: matching_def)
next
  case (Cons r rs1)
  from Cons.prems(1) obtain b where b: "check_record qr r = Inr b" by auto
  have all: "\<forall>r\<in>set rs1. \<exists>b. check_record qr r = Inr b" using Cons.prems(1) by simp
  show ?case
  proof (cases b)
    case False
    then have m: "matching qr (r # rs1) = matching qr rs1" using b by (simp add: matching_def)
    show ?thesis using Cons.IH[OF all, of acc] Cons.prems(2) b False by (simp add: m)
  next
    case True
    then have m: "matching qr (r # rs1) = r # matching qr rs1" using b by (simp add: matching_def)
    have nr: "\<not> limit_reached limit (length acc + length (matching qr (r # rs1)))"
      using Cons.prems(2) by (simp add: m)
    have n1: "\<not> limit_reached limit (Suc (length acc))"
      using nr limit_reached_mono[of limit "Suc (length acc)" "length acc + length (matching qr (r # rs1))"]
      by (auto simp: m)
    have "matching qr rs1 = [] \<or> \<not> limit_reached limit (length (acc @ [r]) + length (matching qr rs1))"
      using nr by (simp add: m)
    from Cons.IH[OF all this] show ?thesis using b True n1 by (simp add: m)
  qed
qed

lemma scan_error:
  assumes "\<forall>r\<in>set rs1. \<exists>b. check_record qr r = Inr b"
    and "matching qr rs1 = [] \<or> \<not> limit_reached limit (length (matching qr rs1))"
    and "check_record qr rcd = Inl e"
  shows "scan qr limit (rs1 @ rcd # rs2) [] = Inl e"
  using scan_no_stop[OF assms(1), of limit "[]" "rcd # rs2"] assms(2,3) by simp

lemma scan_subseq:
  "scan qr limit rs acc = Inr res \<Longrightarrow> \<exists>ms. res = acc @ ms \<and> subseq ms rs"
proof (induction rs arbitrary: acc)
  case Nil
  then show ?case by simp
next
  case (Cons r rs)
  show ?case
  proof (cases "check_record qr r")
    case (Inl e)
    then show ?thesis using Cons.prems by simp
  next
    case (Inr b)
    show ?thesis
    proof (cases b)
      case False
      then have "scan qr limit rs acc = Inr res" using Cons.prems Inr by simp
      from Cons.IH[OF this] obtain ms where "res = acc @ ms" "subseq ms rs" by blast
      then show ?thesis by (intro exI[of _ ms]) (simp add: list_emb_Cons)
    next
      case True
      show ?thesis
      proof (cases "limit_reached limit (length (acc @ [r]))")
        case True
        then have "res = acc @ [r]" using Cons.prems Inr \<open>b\<close> by simp
        then show ?thesis by (intro exI[of _ "[r]"]) simp
      next
        case False
        then have "scan qr limit rs (acc @ [r]) = Inr res" using Cons.prems Inr True by simp
        from Cons.IH[OF this] obtain ms where "res = (acc @ [r]) @ ms" "subseq ms rs" by blast
        then show ?thesis by (intro exI[of _ "r # ms"]) simp
      qed
    qed
  qed
qed

lemma subseq_zip_filter: "subseq (map fst (filter snd (zip rs bs))) rs"
proof (induction rs arbitrary: bs)
  case Nil
  show ?case by simp
next
  case (Cons r rs)
  show ?case
  proof (cases bs)
    case Nil
    then show ?thesis by simp
  next
    case (Cons b bs')
    show ?thesis using Cons.IH[of bs'] by (cases b) (simp_all add: Cons list_emb_Cons)
  qed
qed

lemma subseq_slice_to: "subseq xs ys \<Longrightarrow> subseq (slice_to limit xs) ys"
proof -
  assume a: "subseq xs ys"
  have "\<And>n. subseq (take n xs) xs"
    by (simp add: prefix_imp_subseq take_is_prefix)
  then have "subseq (slice_to limit xs) xs"
    by (simp add: slice_to_def split: option.splits)
  then show ?thesis using a subseq_order.order_trans by blast
qed


lemma parallel_error:
  assumes "\<forall>r\<in>set rs1. \<exists>b. check_record qr r = Inr b" and "check_record qr rcd = Inl e"
  shows "query (jque_init (PyList (rs1 @ rcd # rs2)) True) qr wrap limit = Inl e"
  using match_vector_error[OF assms]
  by (simp add: query_def jque_init_def parallel_query_PyList)

lemma sequential_error:
  assumes "\<forall>r\<in>set rs1. \<exists>b. check_record qr r = Inr b"
    and "matching qr rs1 = [] \<or> \<not> limit_reached limit (length (matching qr rs1))"
    and "check_record qr rcd = Inl e"
  shows "query (jque_init (DataFrame (rs1 @ rcd # rs2)) False) qr wrap limit = Inl e"
  using scan_error[OF assms]
  by (simp add: query_def jque_init_def iter_items_def)

text \<open>
  On rows that all evaluate without an exception, and with no limit or a positive one,
  the loop of the sequential branch builds what the parallel branch filters out of the
  vector and slices.
\<close>

lemma scan_unlimited:
  "match_vector qr rs = Inr bs \<Longrightarrow> limit = None \<or> limit = Some 0 \<Longrightarrow>
   scan qr limit rs acc = Inr (acc @ map fst (filter snd (zip rs bs)))"
proof (induction rs arbitrary: acc bs)
  case Nil
  then show ?case by simp
next
  case (Cons r rs)
  from Cons.prems(1) obtain b bs' where
    b: "check_record qr r = Inr b" and bs': "match_vector qr rs = Inr bs'" and bs: "bs = b # bs'"
    by (auto split: sum.splits)
  have nl: "\<And>n. \<not> limit_reached limit n"
    using Cons.prems(2) by (auto simp: limit_reached_def)
  show ?case
    using Cons.IH[OF bs' Cons.prems(2)] b nl by (cases b) (simp_all add: bs)
qed

lemma scan_limited:
  "match_vector qr rs = Inr bs \<Longrightarrow> 0 < k \<Longrightarrow> length acc < nat k \<Longrightarrow>
   scan qr (Some k) rs acc = Inr (take (nat k) (acc @ map fst (filter snd (zip rs bs))))"
proof (induction rs arbitrary: acc bs)
  case Nil
  then show ?case by simp
next
  case (Cons r rs)
  from Cons.prems(1) obtain b bs' where
    b: "check_record qr r = Inr b" and bs': "match_vector qr rs = Inr bs'" and bs: "bs = b # bs'"
    by (auto split: sum.splits)
  show ?case
  proof (cases b)
    case False
    then show ?thesis using Cons.IH[OF bs' Cons.prems(2,3)] b by (simp add: bs)
  next
    case True
    show ?thesis
    proof (cases "limit_reached (Some k) (length (acc @ [r]))")
      case True
      then have "nat k = Suc (length acc)"
        using Cons.prems(2,3) by (auto simp: limit_reached_def)
      then show ?thesis using b \<open>b\<close> True by (simp add: bs)
    next
      case False
      then have "length (acc @ [r]) < nat k"
        using Cons.prems(2) by (auto simp: limit_reached_def)
      from Cons.IH[OF bs' Cons.prems(2) this] show ?thesis
        using b \<open>b\<close> False by (simp add: bs)
    qed
  qed
qed

lemma scan_mirrors_filter:
  assumes "match_vector qr rs = Inr bs" and "limit = None \<or> (\<exists>k. limit = Some k \<and> 0 < k)"
  shows "scan qr limit rs [] = Inr (slice_to limit (map fst (filter snd (zip rs bs))))"
proof (cases limit)
  case None
  then show ?thesis using scan_unlimited[OF assms(1), of limit "[]"] by (simp add: slice_to_def)
next
  case (Some k)
  then have k: "0 < k" using assms(2) by simp
  then have "length ([] :: pydict list) < nat k" by simp
  from scan_limited[OF assms(1) k this] show ?thesis using k by (simp add: Some slice_to_def)
qed



text \<open>
  The two loops on the same rows, the parallel one given them as a list and the
  sequential one as a frame: under \<open>limit=0\<close> the slice is empty and the scan returns
  every match.
\<close>

lemma modes_differ_on_rows:
  "query (jque_init (PyList [[(''a'', VInt 1)]]) True) [(''a'', QVal (VInt 1))] False None
     = Inr (Bare [[(''a'', VInt 1)]])
   \<and> query (jque_init (PyList [[(''a'', VInt 1)]]) False) [(''a'', QVal (VInt 1))] False None
     = Inl TypeError
   \<and> query (jque_init (PyList [[(''a'', VInt 1)]]) True) [(''a'', QVal (VInt 1))] False (Some 0)
     = Inr (Bare [])
   \<and> query (jque_init (DataFrame [[(''a'', VInt 1)]]) False) [(''a'', QVal (VInt 1))] False (Some 0)
     = Inr (Bare [[(''a'', VInt 1)]])"
  by (simp add: query_def jque_init_def iter_items_def parallel_query_PyList getitem_def
      limit_reached_def slice_to_def rewrap_def)

section \<open>The claims\<close>

text \<open>
  C1.  The literal qualifier \<open>{"age": 42}\<close> matches a record exactly when the record has
  the value \<open>42\<close> at \<open>age\<close>; the clause \<open>{"age": {"$gte": 10, "$lte": 20}}\<close> matches
  exactly when the record has an integer between \<open>10\<close> and \<open>20\<close> at \<open>age\<close>, both
  operators holding; \<open>{"planet": {"$in": ["earth", "mars"]}}\<close> matches exactly when the
  record's \<open>planet\<close> is one of the two strings.  A record matches when the matcher
  returns \<open>True\<close>; a record without the field, or with a value the operator cannot
  compare, raises and does not match.
\<close>

theorem operator_examples:
  "(check_record [(''age'', QVal (VInt 42))] rcd = Inr True
      \<longleftrightarrow> map_of rcd ''age'' = Some (VInt 42))
   \<and> (check_record [(''age'', QVal (VDict [(''$gte'', VInt 10), (''$lte'', VInt 20)]))] rcd = Inr True
      \<longleftrightarrow> (\<exists>n. map_of rcd ''age'' = Some (VInt n) \<and> 10 \<le> n \<and> n \<le> 20))
   \<and> (check_record [(''planet'', QVal (VDict [(''$in'', VList [VStr ''earth'', VStr ''mars''])]))] rcd = Inr True
      \<longleftrightarrow> (map_of rcd ''planet'' = Some (VStr ''earth'') \<or> map_of rcd ''planet'' = Some (VStr ''mars'')))"
proof (intro conjI)
  show "check_record [(''age'', QVal (VInt 42))] rcd = Inr True
      \<longleftrightarrow> map_of rcd ''age'' = Some (VInt 42)"
  proof (cases "map_of rcd ''age''")
    case None
    then show ?thesis by (simp add: getitem_def)
  next
    case (Some x)
    then show ?thesis
      by (cases x) (auto simp: getitem_def split: if_splits)
  qed
next
  show "check_record [(''age'', QVal (VDict [(''$gte'', VInt 10), (''$lte'', VInt 20)]))] rcd = Inr True
      \<longleftrightarrow> (\<exists>n. map_of rcd ''age'' = Some (VInt n) \<and> 10 \<le> n \<and> n \<le> 20)"
  proof (cases "map_of rcd ''age''")
    case None
    then show ?thesis by (simp add: OPERATORS_known getitem_def)
  next
    case (Some x)
    then show ?thesis
      by (cases x) (auto simp: OPERATORS_known getitem_def split: if_splits)
  qed
next
  show "check_record [(''planet'', QVal (VDict [(''$in'', VList [VStr ''earth'', VStr ''mars''])]))] rcd = Inr True
      \<longleftrightarrow> (map_of rcd ''planet'' = Some (VStr ''earth'') \<or> map_of rcd ''planet'' = Some (VStr ''mars''))"
    by (auto simp: OPERATORS_known getitem_def py_eq_VStr split: option.splits if_splits)
qed

text \<open>
  C2.  The sequential branch of \<open>query\<close> on a list of records never reaches its loop:
  \<open>_iter_items\<close> hands the \<open>for\<close> statement the class \<open>list\<close>, and the query raises
  \<open>TypeError\<close> where one record is to be returned under \<open>limit=1\<close>.  On the rows of a
  frame the loop runs, and there \<open>limit=0\<close> returns both matches instead of none, the
  test \<open>limit and ...\<close> taking \<open>0\<close> for no limit.
\<close>

theorem sequential_limit_failure:
  "query (jque_init (PyList [[(''a'', VInt 1)]]) False) [(''a'', QVal (VInt 1))] False (Some 1)
     = Inl TypeError
   \<and> query (jque_init (DataFrame [[(''a'', VInt 1)], [(''a'', VInt 1)]]) False)
       [(''a'', QVal (VInt 1))] False (Some 0)
     = Inr (Bare [[(''a'', VInt 1)], [(''a'', VInt 1)]])"
  by (simp add: query_def jque_init_def iter_items_def getitem_def limit_reached_def rewrap_def)

text \<open>
  C3.  An unknown operator symbol raises the \<open>ValueError\<close> on every record on which the
  matcher gets as far as the symbol: the fields before its clause pass and the operators
  before it in the clause are known and hold.  The record need not have the field, the
  table being consulted before the record is read.
\<close>

theorem unknown_operator_raises:
  assumes "OPERATORS opr = None"
    and "check_record pre rcd = Inr True"
    and "check_ops rcd key ops1 = Inr True"
  shows "check_record (pre @ (key, QVal (VDict (ops1 @ (opr, val) # ops2))) # post) rcd
           = Inl (not_valid_operator opr)"
  using assms by (simp add: check_record_append check_ops_append)

text \<open>
  C3, as first stated, fails: a record that fails an earlier field is a non-match and
  the unknown symbol after it goes unnoticed.
\<close>

theorem unknown_operator_silent_counterexample:
  "OPERATORS ''$bogus'' = None
   \<and> check_record
        [(''planet'', QVal (VStr ''earth'')), (''age'', QVal (VDict [(''$bogus'', VInt 1)]))]
        [(''planet'', VStr ''mars''), (''age'', VInt 5)] = Inr False"
  by (simp add: OPERATORS_bogus getitem_def)

theorem unknown_operator_raises_witness:
  "OPERATORS ''$bogus'' = None
   \<and> check_record [(''planet'', QVal (VStr ''earth''))] [(''planet'', VStr ''earth'')] = Inr True
   \<and> check_ops [(''planet'', VStr ''earth'')] ''age'' [] = Inr True
   \<and> check_record
        [(''planet'', QVal (VStr ''earth'')), (''age'', QVal (VDict [(''$bogus'', VInt 1)]))]
        [(''planet'', VStr ''earth'')] = Inl (not_valid_operator ''$bogus'')"
proof -
  have a: "OPERATORS ''$bogus'' = None" by (rule OPERATORS_bogus)
  have b: "check_record [(''planet'', QVal (VStr ''earth''))] [(''planet'', VStr ''earth'')] = Inr True"
    by (simp add: getitem_def)
  have c: "check_ops [(''planet'', VStr ''earth'')] ''age'' [] = Inr True" by simp
  show ?thesis
    using a b c unknown_operator_raises[OF a b c, of "VInt 1" "[]" "[]"] by simp
qed

text \<open>
  C4.  \<open>_parallel_query\<close> on a list of records returns a vector exactly when every
  record evaluates without an exception, and the vector has the length of the list and,
  at each index, what the matcher returns on the record at that index.
\<close>

theorem parallel_vector_aligned:
  "parallel_query qr (PyList rs) = Inr bs \<longleftrightarrow>
     (length bs = length rs \<and> (\<forall>i<length rs. check_record qr (rs ! i) = Inr (bs ! i)))"
  by (simp add: parallel_query_PyList match_vector_iff)

theorem parallel_vector_aligned_witness:
  "check_record [(''a'', QVal (VInt 1))] [(''a'', VInt 1)] = Inr True
   \<and> check_record [(''a'', QVal (VInt 1))] [(''a'', VInt 2)] = Inr False
   \<and> parallel_query [(''a'', QVal (VInt 1))] (PyList [[(''a'', VInt 1)], [(''a'', VInt 2)]])
        = Inr [True, False]"
proof -
  have h: "\<forall>i<length [[(''a'', VInt 1)], [(''a'', VInt 2)]].
      check_record [(''a'', QVal (VInt 1))] ([[(''a'', VInt 1)], [(''a'', VInt 2)]] ! i)
        = Inr ([True, False] ! i)"
    by (simp add: less_Suc_eq getitem_def all_conj_distrib)
  have v: "parallel_query [(''a'', QVal (VInt 1))] (PyList [[(''a'', VInt 1)], [(''a'', VInt 2)]])
        = Inr [True, False]"
    using h parallel_vector_aligned[of "[(''a'', QVal (VInt 1))]"
        "[[(''a'', VInt 1)], [(''a'', VInt 2)]]" "[True, False]"]
    by simp
  show ?thesis using v by (simp add: getitem_def)
qed



text \<open>
  C6.  A record without field \<open>f\<close> raises \<open>KeyError(f)\<close> when every field before \<open>f\<close>
  passes on it and the qualifier of \<open>f\<close> reads the record.  The exception leaves the
  query: in parallel mode when no earlier record raises, in the sequential loop when in
  addition the earlier matches have not reached the limit.
\<close>

theorem missing_field_raises:
  assumes "map_of rcd f = None"
    and "reads_field q"
    and "check_record pre rcd = Inr True"
    and "qr = pre @ (f, q) # post"
    and "\<forall>r\<in>set rs1. \<exists>b. check_record qr r = Inr b"
  shows "check_record qr rcd = Inl (KeyError (VStr f))
       \<and> query (jque_init (PyList (rs1 @ rcd # rs2)) True) qr wrap limit = Inl (KeyError (VStr f))
       \<and> (matching qr rs1 = [] \<or> \<not> limit_reached limit (length (matching qr rs1)) \<longrightarrow>
            query (jque_init (DataFrame (rs1 @ rcd # rs2)) False) qr wrap limit
              = Inl (KeyError (VStr f)))"
proof -
  have e: "check_record qr rcd = Inl (KeyError (VStr f))"
    using assms(3) reads_field_raises[OF assms(2,1)]
    by (simp add: assms(4) check_record_append)
  show ?thesis
    using e parallel_error[OF assms(5) e] sequential_error[OF assms(5) _ e] by blast
qed

text \<open>
  C6, as first stated, fails: a record that fails an earlier field is a non-match
  although it lacks a later field of the predicate, and the query goes on.
\<close>

theorem missing_field_silent_counterexample:
  "map_of [(''a'', VInt 0)] ''f'' = None
   \<and> check_record [(''a'', QVal (VInt 1)), (''f'', QVal (VInt 2))] [(''a'', VInt 0)] = Inr False
   \<and> query (jque_init (PyList [[(''a'', VInt 0)]]) True)
        [(''a'', QVal (VInt 1)), (''f'', QVal (VInt 2))] False None = Inr (Bare [])"
  by (simp add: getitem_def query_def jque_init_def parallel_query_def slice_to_def rewrap_def)

theorem missing_field_raises_witness:
  "map_of [(''a'', VInt 1)] ''f'' = None
   \<and> reads_field (QVal (VInt 2))
   \<and> check_record [(''a'', QVal (VInt 1))] [(''a'', VInt 1)] = Inr True
   \<and> check_record [(''a'', QVal (VInt 1)), (''f'', QVal (VInt 2))] [(''a'', VInt 0)]
        = Inr False
   \<and> matching [(''a'', QVal (VInt 1)), (''f'', QVal (VInt 2))] [[(''a'', VInt 0)]] = []
   \<and> check_record [(''a'', QVal (VInt 1)), (''f'', QVal (VInt 2))] [(''a'', VInt 1)]
        = Inl (KeyError (VStr ''f''))
   \<and> query (jque_init (PyList [[(''a'', VInt 0)], [(''a'', VInt 1)]]) True)
        [(''a'', QVal (VInt 1)), (''f'', QVal (VInt 2))] True None = Inl (KeyError (VStr ''f''))
   \<and> query (jque_init (DataFrame [[(''a'', VInt 0)], [(''a'', VInt 1)]]) False)
        [(''a'', QVal (VInt 1)), (''f'', QVal (VInt 2))] True (Some 1) = Inl (KeyError (VStr ''f''))"
proof -
  have a: "map_of [(''a'', VInt 1)] ''f'' = None" by simp
  have b: "reads_field (QVal (VInt 2))" by simp
  have c: "check_record [(''a'', QVal (VInt 1))] [(''a'', VInt 1)] = Inr True"
    by (simp add: getitem_def)
  have d: "[(''a'', QVal (VInt 1)), (''f'', QVal (VInt 2))]
             = [(''a'', QVal (VInt 1))] @ (''f'', QVal (VInt 2)) # []" by simp
  have e: "\<forall>r\<in>set [[(''a'', VInt 0)]].
         \<exists>b. check_record [(''a'', QVal (VInt 1)), (''f'', QVal (VInt 2))] r = Inr b"
    by (auto simp: getitem_def)
  have m: "matching [(''a'', QVal (VInt 1)), (''f'', QVal (VInt 2))] [[(''a'', VInt 0)]] = []"
    by (simp add: matching_def getitem_def)
  have q0: "check_record [(''a'', QVal (VInt 1)), (''f'', QVal (VInt 2))] [(''a'', VInt 1)]
        = Inl (KeyError (VStr ''f''))"
    using missing_field_raises[OF a b c d e, of "[]" True None] by simp
  have q1: "query (jque_init (PyList [[(''a'', VInt 0)], [(''a'', VInt 1)]]) True)
        [(''a'', QVal (VInt 1)), (''f'', QVal (VInt 2))] True None = Inl (KeyError (VStr ''f''))"
    using missing_field_raises[OF a b c d e, of "[]" True None] by simp
  have q2: "query (jque_init (DataFrame [[(''a'', VInt 0)], [(''a'', VInt 1)]]) False)
        [(''a'', QVal (VInt 1)), (''f'', QVal (VInt 2))] True (Some 1) = Inl (KeyError (VStr ''f''))"
    using m missing_field_raises[OF a b c d e, of "[]" True "Some 1"] by simp
  have e': "check_record [(''a'', QVal (VInt 1)), (''f'', QVal (VInt 2))] [(''a'', VInt 0)]
        = Inr False"
    by (simp add: getitem_def)
  show ?thesis by (intro conjI a b c e' m q0 q1 q2)
qed

text \<open>
  C7.  Whatever \<open>query\<close> returns, in either mode, wrapped or bare, under any limit, is a
  subsequence of the records it was given: each returned record is one of them and they
  come in their original order.
\<close>

theorem query_subseq:
  assumes "query self qr wrap limit = Inr res"
  shows "subseq (records_of res) (rows_of (data self))"
proof (cases "parallel self")
  case True
  then obtain results where
    res: "res = rewrap wrap (slice_to limit (map fst (filter snd (zip_data (data self) results))))"
    using assms by (auto simp: query_def split: sum.splits)
  have "subseq (map fst (filter snd (zip_data (data self) results))) (rows_of (data self))"
    by (cases "data self") (simp_all add: subseq_zip_filter)
  then show ?thesis by (simp add: res records_of_rewrap subseq_slice_to)
next
  case False
  then obtain rs filtered_data where
    d: "data self = DataFrame rs" and
    sc: "scan qr limit rs [] = Inr filtered_data" and
    res: "res = rewrap wrap filtered_data"
    using assms
    by (auto simp: query_def iter_items_def split: sum.splits if_splits pydata.splits iter_target.splits)
  from scan_subseq[OF sc] show ?thesis by (simp add: res d records_of_rewrap)
qed

theorem query_subseq_witness:
  "query (jque_init (PyList [[(''a'', VInt 1)], [(''a'', VInt 2)], [(''a'', VInt 1), (''b'', VNone)]]) True)
     [(''a'', QVal (VInt 1))] False None
     = Inr (Bare [[(''a'', VInt 1)], [(''a'', VInt 1), (''b'', VNone)]])
   \<and> subseq [[(''a'', VInt 1)], [(''a'', VInt 1), (''b'', VNone)]]
        [[(''a'', VInt 1)], [(''a'', VInt 2)], [(''a'', VInt 1), (''b'', VNone)]]"
proof -
  have q: "query (jque_init (PyList [[(''a'', VInt 1)], [(''a'', VInt 2)], [(''a'', VInt 1), (''b'', VNone)]]) True)
     [(''a'', QVal (VInt 1))] False None
     = Inr (Bare [[(''a'', VInt 1)], [(''a'', VInt 1), (''b'', VNone)]])"
    by (simp add: query_def jque_init_def parallel_query_PyList getitem_def slice_to_def rewrap_def)
  show ?thesis using q query_subseq[OF q] by (simp add: jque_init_def)
qed

text \<open>
  C8.  A query chained on the wrapped result of another raises \<open>TypeError\<close>: in the
  default mode the first query already does, and in parallel mode the wrapper it returns
  is a sequential one over a list, whose query does.  The single query with both clauses
  returns the record in parallel mode.
\<close>

theorem chained_query_raises:
  "query (jque_init (PyList [[(''a'', VInt 1), (''b'', VInt 2)]]) False)
       [(''a'', QVal (VInt 1))] True None = Inl TypeError
   \<and> query (jque_init (PyList [[(''a'', VInt 1), (''b'', VInt 2)]]) True)
       [(''a'', QVal (VInt 1))] True None
     = Inr (Wrapped (jque_init (PyList [[(''a'', VInt 1), (''b'', VInt 2)]]) False))
   \<and> query (jque_init (PyList [[(''a'', VInt 1), (''b'', VInt 2)]]) False)
       [(''b'', QVal (VInt 2))] True None = Inl TypeError
   \<and> query (jque_init (PyList [[(''a'', VInt 1), (''b'', VInt 2)]]) True)
       [(''a'', QVal (VInt 1)), (''b'', QVal (VInt 2))] True None
     = Inr (Wrapped (jque_init (PyList [[(''a'', VInt 1), (''b'', VInt 2)]]) False))"
  by (simp add: query_def jque_init_def iter_items_def parallel_query_PyList getitem_def
      slice_to_def rewrap_def)

text \<open>
  C9.  For a qualifier that is a function object (\<open>types.FunctionType\<close>) and a record
  with the field, the matcher calls the function on the record's value at the field, and
  with all other fields passing the record matches exactly when the value returned is
  true: for a function that returns a boolean, a non-match exactly when it returns
  \<open>False\<close>.
\<close>

theorem test_function_applied:
  assumes "map_of rcd key = Some v"
    and "f v = Inr r"
    and "check_record pre rcd = Inr True"
    and "check_record post rcd = Inr True"
  shows "check_record (pre @ (key, QFunction f) # post) rcd = Inr (truthy r)"
  using assms by (simp add: check_record_append getitem_def)

text \<open>
  C9, as first stated, fails for a callable that is not a function object: \<open>bool\<close>, a
  class, returns \<open>True\<close> on the string \<open>"x"\<close>, and the matcher, comparing the string with
  the class instead of calling it, reports a non-match.
\<close>

theorem callable_not_invoked_counterexample:
  "(Inr \<circ> VBool \<circ> truthy) (VStr ''x'') = Inr (VBool True)
   \<and> check_record [(''name'', QCallable (Inr \<circ> VBool \<circ> truthy))] [(''name'', VStr ''x'')] = Inr False"
  by (simp add: getitem_def)

theorem test_function_applied_witness:
  "map_of [(''a'', VInt 1), (''name'', VStr ''x'')] ''name'' = Some (VStr ''x'')
   \<and> (Inr \<circ> VBool \<circ> truthy) (VStr ''x'') = Inr (VBool True)
   \<and> check_record [(''a'', QVal (VInt 1))] [(''a'', VInt 1), (''name'', VStr ''x'')] = Inr True
   \<and> check_record [] [(''a'', VInt 1), (''name'', VStr ''x'')] = Inr True
   \<and> check_record [(''a'', QVal (VInt 1)), (''name'', QFunction (Inr \<circ> VBool \<circ> truthy))]
        [(''a'', VInt 1), (''name'', VStr ''x'')] = Inr True"
proof -
  have a: "map_of [(''a'', VInt 1), (''name'', VStr ''x'')] ''name'' = Some (VStr ''x'')" by simp
  have b: "(Inr \<circ> VBool \<circ> truthy) (VStr ''x'') = Inr (VBool True)" by simp
  have c: "check_record [(''a'', QVal (VInt 1))] [(''a'', VInt 1), (''name'', VStr ''x'')] = Inr True"
    by (simp add: getitem_def)
  have d: "check_record [] [(''a'', VInt 1), (''name'', VStr ''x'')] = Inr True" by simp
  show ?thesis
    using a b c d
      test_function_applied[where f = "Inr \<circ> VBool \<circ> truthy" and key = "''name''"
        and rcd = "[(''a'', VInt 1), (''name'', VStr ''x'')]" and v = "VStr ''x''"
        and r = "VBool True" and pre = "[(''a'', QVal (VInt 1))]" and post = "[]"]
    by simp
qed

text \<open>
  C10.  A field whose qualifier is the empty mapping passes without the record being
  read: \<open>{"f": {}}\<close> matches every record, with or without the field \<open>f\<close>, and inside
  a longer predicate the field can be dropped without changing what the matcher returns
  or raises.
\<close>

theorem empty_clause_vacuous:
  "check_record [(f, QVal (VDict []))] rcd = Inr True
   \<and> check_record (pre @ (f, QVal (VDict [])) # post) rcd = check_record (pre @ post) rcd"
  by (simp add: check_record_append split: sum.splits)

end
